theory Spec2Isabelle
  imports Main "HOL-Library.List_Lexorder" "HOL-Library.Char_ord"
begin

section \<open>The entrypoint of the connector: source_toggl/run.py\<close>

text \<open>
  The only program text of the connector is its launcher:
  \<^verbatim>\<open>
  import sys
  from airbyte_cdk.entrypoint import launch
  from .source import SourceToggl

  def run():
      source = SourceToggl()
      launch(source, sys.argv[1:])
  \<close>
  \<open>SourceToggl\<close> and \<open>launch\<close> are imported names: what they do is not written in this
  file, so both are parameters of the model. A callable receives its positional arguments
  and the interpreter state, and either returns a value or raises; in both cases it may
  have changed the interpreter state, \<open>sys.argv\<close> included.
\<close>

subsection \<open>Values, exceptions and the interpreter state\<close>

text \<open>
  The values \<open>run\<close> handles: \<open>None\<close>, an object (the connector, of any type \<open>'o\<close>) and
  a list of strings (a slice of \<open>sys.argv\<close>).
\<close>

datatype 'o pyval = PyNone | Obj 'o | StrList "string list"

datatype exn = Raised string

text \<open>
  The interpreter state as the callables see it: \<open>sys.argv\<close> and everything else
  (\<open>heap\<close>, of any type \<open>'w\<close>).
\<close>

record 'w interp =
  sys_argv :: "string list"
  heap :: 'w

type_synonym ('o, 'w) callable =
  "'o pyval list \<Rightarrow> 'w interp \<Rightarrow> (exn + 'o pyval) \<times> 'w interp"

text \<open>
  The module's namespace maps the names the module imports to callables. Every call that
  \<open>run\<close> makes goes through \<open>invoke\<close>, which appends the callee's name and the arguments to a
  log of calls; the log is no part of the state a callable can reach.
\<close>

datatype 'o call = Call string "'o pyval list"

record ('o, 'w) machine =
  interp :: "'w interp"
  calls :: "'o call list"

definition invoke ::
  "(string \<Rightarrow> ('o, 'w) callable) \<Rightarrow> string \<Rightarrow> 'o pyval list \<Rightarrow> ('o, 'w) machine
    \<Rightarrow> (exn + 'o pyval) \<times> ('o, 'w) machine" where
  "invoke env f args m =
     (case env f args (interp m) of
        (r, st) \<Rightarrow> (r, \<lparr>interp = st, calls = calls m @ [Call f args]\<rparr>))"

subsection \<open>run\<close>

text \<open>
  Line 14 calls the constructor with no argument and binds \<open>source\<close>; an exception leaves
  \<open>run\<close> there. Line 15 evaluates \<open>sys.argv[1:]\<close> in the state the constructor left (a
  slice never raises: it is empty when \<open>sys.argv\<close> has fewer than two elements) and calls
  \<open>launch\<close>; its exception leaves \<open>run\<close> too, and its value is dropped: \<open>run\<close> returns
  \<open>None\<close>.
\<close>

definition run ::
  "(string \<Rightarrow> ('o, 'w) callable) \<Rightarrow> ('o, 'w) machine \<Rightarrow> (exn + 'o pyval) \<times> ('o, 'w) machine" where
  "run env m =
     (case invoke env ''SourceToggl'' [] m of
        (Inl e, m1) \<Rightarrow> (Inl e, m1)
      | (Inr source, m1) \<Rightarrow>
          (case invoke env ''launch'' [source, StrList (drop 1 (sys_argv (interp m1)))] m1 of
             (Inl e, m2) \<Rightarrow> (Inl e, m2)
           | (Inr _, m2) \<Rightarrow> (Inr PyNone, m2)))"

text \<open>
  The calls made between two machine states, and the argument lists of the calls to
  \<open>launch\<close> among them, each list whole.
\<close>

definition new_calls :: "('o, 'w) machine \<Rightarrow> ('o, 'w) machine \<Rightarrow> 'o call list" where
  "new_calls m m' = drop (length (calls m)) (calls m')"

fun callee :: "'o call \<Rightarrow> string" where
  "callee (Call f args) = f"

fun launch_args :: "'o call \<Rightarrow> 'o pyval list list" where
  "launch_args (Call f args) = (if f = ''launch'' then [args] else [])"

definition forwarded :: "'o call list \<Rightarrow> 'o pyval list list" where
  "forwarded cs = concat (map launch_args cs)"

text \<open>
  A namespace to run the model in: the constructor returns object 7 and leaves the state
  alone, \<open>launch\<close> stores the arguments it received in the heap, any other name raises.
\<close>

definition demo_env :: "string \<Rightarrow> (nat, nat pyval list list) callable" where
  "demo_env f args st =
     (if f = ''SourceToggl'' then (Inr (Obj 7), st)
      else if f = ''launch'' then (Inr PyNone, st\<lparr>heap := heap st @ [args]\<rparr>)
      else (Inl (Raised ''NameError''), st))"

definition demo_machine :: "(nat, nat pyval list list) machine" where
  "demo_machine =
     \<lparr>interp = \<lparr>sys_argv = [''main.py'', ''read'', ''--config'', ''secrets/config.json''], heap = []\<rparr>,
      calls = []\<rparr>"

text \<open>The same process started with no argument after the program name.\<close>

definition bare_machine :: "(nat, nat pyval list list) machine" where
  "bare_machine = \<lparr>interp = \<lparr>sys_argv = [''main.py''], heap = []\<rparr>, calls = []\<rparr>"

text \<open>
  A namespace whose \<open>launch\<close> looks at \<open>sys.argv\<close> itself, as a runner that prints its
  program name does: it stores \<open>sys.argv[:1]\<close> in the heap and ignores its arguments. The
  second process differs from \<open>demo_machine\<close> in the program name only.
\<close>

definition peek_env :: "string \<Rightarrow> (nat, nat pyval list list) callable" where
  "peek_env f args st =
     (if f = ''SourceToggl'' then (Inr (Obj 7), st)
      else if f = ''launch'' then (Inr PyNone, st\<lparr>heap := heap st @ [[StrList (take 1 (sys_argv st))]]\<rparr>)
      else (Inl (Raised ''NameError''), st))"

definition renamed_machine :: "(nat, nat pyval list list) machine" where
  "renamed_machine =
     \<lparr>interp = \<lparr>sys_argv = [''other.py'', ''read'', ''--config'', ''secrets/config.json''], heap = []\<rparr>,
      calls = []\<rparr>"

section \<open>An incremental stream and its checkpoint, after the specification\<close>

text \<open>
  The launcher hands everything else to \<open>launch\<close>: no stream, paginator or sync engine is
  written in the connector's files. The specification describes them in sections 3, 4.3
  and 4.5, and the definitions of this section follow its words for one thing: how one
  stream is read and checkpointed. The iteration over the selected streams, the failure of
  a read, the paginator and the rate limiter are not modelled.
\<close>

subsection \<open>Data model (specification, section 3)\<close>

text \<open>
  Modelled from the spec: the raw record dictionary a page holds ("ordered sequence of raw
  record dictionaries", section 4.2), absent from the sources. Field values are opaque
  comparable scalars of one type \<open>'v\<close>.
\<close>

type_synonym 'v raw = "(string \<times> 'v) list"

text \<open>
  Modelled from the spec: the StreamDescriptor of section 3, absent from the sources: a
  name, an extraction mode, a cursor field name that is present iff the mode is
  incremental (so it is the argument of \<open>Incremental\<close>), and a primary key.
\<close>

datatype extraction_mode = FullRefresh | Incremental string

record descriptor =
  name :: string
  mode :: extraction_mode
  primary_key :: "string list"

text \<open>
  Modelled from the spec: the Record and Checkpoint messages of section 3 and the SyncState
  they snapshot (a mapping from stream name to cursor value), absent from the sources. A
  Record carries the stream name, the emission timestamp and the payload.
\<close>

datatype 'v message = Record string nat "'v raw" | Checkpoint "string \<rightharpoonup> 'v"

subsection \<open>Stream.read (specification, section 4.3)\<close>

text \<open>
  Modelled from the spec: whether the upstream API filters by a lower bound itself
  (section 4.3: "if the upstream API supports server-side filtering ... or, if unsupported
  ... client-side filtering fallback"), absent from the sources.
\<close>

datatype filtering = ServerSide | ClientSide

text \<open>
  Modelled from the spec: the state of one read, absent from the sources: the records
  emitted so far, the maximum cursor value observed among them, the maximum the stream
  exposes (section 4.3: advanced only at page boundaries, never mid-page), and the count
  of warnings.
\<close>

record 'v reader =
  emitted :: "'v raw list"
  running_max :: "'v option"
  max_cursor :: "'v option"
  warnings :: nat

definition start :: "'v reader" where
  "start = \<lparr>emitted = [], running_max = None, max_cursor = None, warnings = 0\<rparr>"

fun raise_max :: "'v::linorder option \<Rightarrow> 'v \<Rightarrow> 'v option" where
  "raise_max None v = Some v"
| "raise_max (Some m) v = Some (max m v)"

text \<open>
  Modelled from the spec: the client-side discard rule of section 4.3, absent from the
  sources: a record is discarded when its cursor value is less than or equal to the
  provided cursor; with no provided cursor nothing is discarded.
\<close>

fun discarded :: "'v::linorder option \<Rightarrow> 'v \<Rightarrow> bool" where
  "discarded None v = False"
| "discarded (Some c) v = (v \<le> c)"

text \<open>
  Modelled from the spec: the handling of one raw record by an incremental stream, absent
  from the sources. A record without the cursor field is malformed: it is skipped with a
  warning (section 7, DataError). A record that is not discarded is emitted and raises the
  observed maximum.
\<close>

definition read_record ::
  "string \<Rightarrow> 'v::linorder option \<Rightarrow> 'v reader \<Rightarrow> 'v raw \<Rightarrow> 'v reader" where
  "read_record f lower st r =
     (case map_of r f of
        None \<Rightarrow> st\<lparr>warnings := Suc (warnings st)\<rparr>
      | Some v \<Rightarrow>
          if discarded lower v then st
          else st\<lparr>emitted := emitted st @ [r], running_max := raise_max (running_max st) v\<rparr>)"

text \<open>
  Modelled from the spec: the handling of one page, absent from the sources: its records in
  order, then, the page being complete, the exposed maximum advances to the observed one.
\<close>

definition read_page ::
  "string \<Rightarrow> 'v::linorder option \<Rightarrow> 'v reader \<Rightarrow> 'v raw list \<Rightarrow> 'v reader" where
  "read_page f lower st page =
     (let st' = foldl (read_record f lower) st page in st'\<lparr>max_cursor := running_max st'\<rparr>)"

definition read_pages ::
  "string \<Rightarrow> 'v::linorder option \<Rightarrow> 'v raw list list \<Rightarrow> 'v reader" where
  "read_pages f lower pages = foldl (read_page f lower) start pages"

text \<open>
  Modelled from the spec: \<open>Stream.read\<close> of section 4.3, absent from the sources. The
  upstream is a function from the lower bound of the request (none, or a cursor value) to
  the pages it answers with. A full-refresh stream ignores the cursor and reads
  everything. An incremental stream either sends the cursor as the lower bound and emits
  what the upstream answers, or, in the client-side fallback, requests everything and
  discards by \<open>discarded\<close>.
\<close>

definition read ::
  "descriptor \<Rightarrow> filtering \<Rightarrow> ('v::linorder option \<Rightarrow> 'v raw list list) \<Rightarrow> 'v option
     \<Rightarrow> 'v reader" where
  "read d flt upstream cursor =
     (case mode d of
        FullRefresh \<Rightarrow> start\<lparr>emitted := concat (upstream None)\<rparr>
      | Incremental f \<Rightarrow>
          (case flt of
             ServerSide \<Rightarrow> read_pages f None (upstream cursor)
           | ClientSide \<Rightarrow> read_pages f cursor (upstream None)))"

subsection \<open>The sync engine's step for one stream (specification, section 4.5)\<close>

text \<open>
  Modelled from the spec: the part of the Sync Engine's \<open>run\<close> that handles one stream
  (section 4.5), absent from the sources: it drives the stream's read with the cursor the
  SyncState holds for the stream, forwards each Record in order, stamped with the stream
  name and the time of emission, and on exhaustion emits one Checkpoint: the running
  SyncState with the stream's entry set to the maximum the stream exposes, every other
  entry unchanged. A stream that exposes no maximum leaves the SyncState as it is.
\<close>

record 'v engine =
  sync_state :: "string \<rightharpoonup> 'v"
  clock :: nat

definition sync_stream ::
  "descriptor \<Rightarrow> filtering \<Rightarrow> ('v::linorder option \<Rightarrow> 'v raw list list) \<Rightarrow> 'v engine
     \<Rightarrow> 'v message list \<times> 'v engine" where
  "sync_stream d flt upstream eng =
     (let rd = read d flt upstream (sync_state eng (name d));
          records = map (\<lambda>(i, r). Record (name d) (clock eng + i) r) (enumerate 0 (emitted rd));
          st = (case max_cursor rd of
                  None \<Rightarrow> sync_state eng
                | Some c \<Rightarrow> (sync_state eng)(name d \<mapsto> c))
      in (records @ [Checkpoint st],
          \<lparr>sync_state = st, clock = clock eng + length (emitted rd)\<rparr>))"

subsection \<open>Reading an output sequence\<close>

text \<open>The payloads of the Record messages and the states of the Checkpoint messages, in order.\<close>

fun payload :: "'v message \<Rightarrow> 'v raw list" where
  "payload (Record n t r) = [r]"
| "payload (Checkpoint s) = []"

definition payloads :: "'v message list \<Rightarrow> 'v raw list" where
  "payloads ms = concat (map payload ms)"

fun checkpoint :: "'v message \<Rightarrow> (string \<rightharpoonup> 'v) list" where
  "checkpoint (Record n t r) = []"
| "checkpoint (Checkpoint s) = [s]"

definition checkpoints :: "'v message list \<Rightarrow> (string \<rightharpoonup> 'v) list" where
  "checkpoints ms = concat (map checkpoint ms)"

text \<open>The values of field \<open>f\<close> in a list of records, and the greatest value of a list.\<close>

definition cursor_values :: "string \<Rightarrow> 'v raw list \<Rightarrow> 'v list" where
  "cursor_values f rs = concat (map (\<lambda>r. case map_of r f of None \<Rightarrow> [] | Some v \<Rightarrow> [v]) rs)"

definition greatest :: "'v::linorder list \<Rightarrow> 'v option" where
  "greatest vs = (if vs = [] then None else Some (Max (set vs)))"

definition kept :: "string \<Rightarrow> 'v::linorder option \<Rightarrow> 'v raw \<Rightarrow> bool" where
  "kept f lower r = (case map_of r f of None \<Rightarrow> False | Some v \<Rightarrow> \<not> discarded lower v)"

text \<open>
  The invariant of a read between pages: the observed maximum is the greatest cursor value
  among the emitted records, and the exposed maximum has caught up with it.
\<close>

definition settled :: "string \<Rightarrow> 'v::linorder reader \<Rightarrow> bool" where
  "settled f st \<longleftrightarrow>
     running_max st = greatest (cursor_values f (emitted st)) \<and> max_cursor st = running_max st"

text \<open>
  The scenario of section 8: stream "projects", incremental with cursor "updated_at", prior
  state "2024-01-01"; the upstream returns two records, updated at "2024-01-02" and at
  "2023-12-31". Dates in ISO form compare as strings.
\<close>

definition projects :: descriptor where
  "projects = \<lparr>name = ''projects'', mode = Incremental ''updated_at'', primary_key = [''id'']\<rparr>"

definition projects_upstream :: "string option \<Rightarrow> string raw list list" where
  "projects_upstream lower =
     [[[(''id'', ''1''), (''updated_at'', ''2024-01-02'')],
       [(''id'', ''2''), (''updated_at'', ''2023-12-31'')]]]"

definition prior :: "string engine" where
  "prior = \<lparr>sync_state = [''projects'' \<mapsto> ''2024-01-01''], clock = 0\<rparr>"

section \<open>The launcher: which calls it makes\<close>

lemma run_constructor_raises:
  assumes "env ''SourceToggl'' [] (interp m) = (Inl e, st1)"
  shows "run env m = (Inl e, \<lparr>interp = st1, calls = calls m @ [Call ''SourceToggl'' []]\<rparr>)"
  using assms by (simp add: run_def invoke_def)

lemma run_constructor_returns:
  assumes "env ''SourceToggl'' [] (interp m) = (Inr source, st1)"
    and "env ''launch'' [source, StrList (drop 1 (sys_argv st1))] st1 = (r, st2)"
  shows "run env m =
     ((case r of Inl e \<Rightarrow> Inl e | Inr v \<Rightarrow> Inr PyNone),
      \<lparr>interp = st2,
       calls = calls m @ [Call ''SourceToggl'' [],
                          Call ''launch'' [source, StrList (drop 1 (sys_argv st1))]]\<rparr>)"
  using assms by (cases r) (simp_all add: run_def invoke_def)

lemma new_calls_append: "calls m' = calls m @ cs \<Longrightarrow> new_calls m m' = cs"
  by (simp add: new_calls_def)

text \<open>
  C1. Whenever the constructor returns, \<open>run\<close> makes exactly two calls, in this order:
  \<open>SourceToggl\<close> with no argument, then \<open>launch\<close> with the object the constructor returned as
  its first argument. Each name is called exactly once, and \<open>run\<close> does nothing else: the
  interpreter state it leaves is the one \<open>launch\<close> left.
\<close>

theorem run_is_thin_launcher:
  assumes "env ''SourceToggl'' [] (interp m) = (Inr source, st1)"
  shows "\<exists>args. new_calls m (snd (run env m)) = [Call ''SourceToggl'' [], Call ''launch'' [source, args]]
            \<and> length (filter (\<lambda>c. callee c = ''SourceToggl'') (new_calls m (snd (run env m)))) = 1
            \<and> length (filter (\<lambda>c. callee c = ''launch'') (new_calls m (snd (run env m)))) = 1
            \<and> interp (snd (run env m)) = snd (env ''launch'' [source, args] st1)"
proof -
  let ?args = "StrList (drop 1 (sys_argv st1))"
  obtain r st2 where l: "env ''launch'' [source, ?args] st1 = (r, st2)"
    by (cases "env ''launch'' [source, ?args] st1")
  have run: "snd (run env m) =
      \<lparr>interp = st2, calls = calls m @ [Call ''SourceToggl'' [], Call ''launch'' [source, ?args]]\<rparr>"
    using run_constructor_returns [OF assms l] by simp
  have new: "new_calls m (snd (run env m)) = [Call ''SourceToggl'' [], Call ''launch'' [source, ?args]]"
    by (rule new_calls_append) (simp add: run)
  have "interp (snd (run env m)) = snd (env ''launch'' [source, ?args] st1)"
    unfolding run l by simp
  with new show ?thesis by simp
qed

theorem run_is_thin_launcher_witness:
  "\<exists>args. new_calls demo_machine (snd (run demo_env demo_machine))
              = [Call ''SourceToggl'' [], Call ''launch'' [Obj 7, args]]
     \<and> length (filter (\<lambda>c. callee c = ''SourceToggl'')
          (new_calls demo_machine (snd (run demo_env demo_machine)))) = 1
     \<and> length (filter (\<lambda>c. callee c = ''launch'')
          (new_calls demo_machine (snd (run demo_env demo_machine)))) = 1
     \<and> interp (snd (run demo_env demo_machine))
          = snd (demo_env ''launch'' [Obj 7, args] (interp demo_machine))"
proof -
  have "demo_env ''SourceToggl'' [] (interp demo_machine) = (Inr (Obj 7), interp demo_machine)"
    by (simp add: demo_env_def)
  from run_is_thin_launcher [of demo_env demo_machine "Obj 7" "interp demo_machine", OF this]
  show ?thesis .
qed

text \<open>
  C10, as stated, fails: the first element of \<open>sys.argv\<close> is visible to the runner.
  \<open>run\<close> hands \<open>launch\<close> the interpreter state with \<open>sys.argv\<close> whole, and a \<open>launch\<close> that
  reads it ends in different states on two command lines that differ in the program name
  only, although \<open>run\<close> passes it the same arguments on both.
\<close>

theorem argv0_visible_to_launch:
  "heap (interp (snd (run peek_env demo_machine))) = [[StrList [''main.py'']]]
   \<and> heap (interp (snd (run peek_env renamed_machine))) = [[StrList [''other.py'']]]
   \<and> forwarded (new_calls demo_machine (snd (run peek_env demo_machine)))
       = forwarded (new_calls renamed_machine (snd (run peek_env renamed_machine)))"
  by (simp add: run_def invoke_def peek_env_def demo_machine_def renamed_machine_def
      new_calls_def forwarded_def)

text \<open>
  C10, amended. Whenever the constructor returns, \<open>run\<close> calls \<open>launch\<close> once, and the
  arguments of that call are exactly two: the object the constructor returned, and
  \<open>sys.argv\<close> without its first element (\<open>sys.argv\<close> read in the state the constructor
  left). For \<open>sys.argv = a # rest\<close> the list passed is \<open>rest\<close>, whatever \<open>a\<close> is: the first
  element is no part of what \<open>run\<close> passes. For a \<open>sys.argv\<close> of at most one element the
  list passed is empty. \<open>launch\<close> runs in the state the constructor left, in which
  \<open>sys.argv\<close> still has its first element.
\<close>

theorem run_passes_argv_tail:
  assumes "env ''SourceToggl'' [] (interp m) = (Inr source, st1)"
  shows "forwarded (new_calls m (snd (run env m))) = [[source, StrList (drop 1 (sys_argv st1))]]
     \<and> (\<forall>a rest. sys_argv st1 = a # rest \<longrightarrow>
          forwarded (new_calls m (snd (run env m))) = [[source, StrList rest]])
     \<and> (length (sys_argv st1) \<le> 1 \<longrightarrow>
          forwarded (new_calls m (snd (run env m))) = [[source, StrList []]])
     \<and> interp (snd (run env m))
          = snd (env ''launch'' [source, StrList (drop 1 (sys_argv st1))] st1)"
proof -
  let ?args = "StrList (drop 1 (sys_argv st1))"
  obtain r st2 where l: "env ''launch'' [source, ?args] st1 = (r, st2)"
    by (cases "env ''launch'' [source, ?args] st1")
  have run: "snd (run env m) =
      \<lparr>interp = st2, calls = calls m @ [Call ''SourceToggl'' [], Call ''launch'' [source, ?args]]\<rparr>"
    using run_constructor_returns [OF assms l] by simp
  have "new_calls m (snd (run env m)) = [Call ''SourceToggl'' [], Call ''launch'' [source, ?args]]"
    by (rule new_calls_append) (simp add: run)
  then have fwd: "forwarded (new_calls m (snd (run env m))) = [[source, ?args]]"
    by (simp add: forwarded_def)
  have state: "interp (snd (run env m)) = snd (env ''launch'' [source, ?args] st1)"
    unfolding run l by simp
  show ?thesis
  proof (intro conjI allI impI)
    show "forwarded (new_calls m (snd (run env m))) = [[source, ?args]]" by (rule fwd)
  next
    fix a rest assume "sys_argv st1 = a # rest"
    with fwd show "forwarded (new_calls m (snd (run env m))) = [[source, StrList rest]]" by simp
  next
    assume "length (sys_argv st1) \<le> 1"
    with fwd show "forwarded (new_calls m (snd (run env m))) = [[source, StrList []]]" by simp
  next
    show "interp (snd (run env m)) = snd (env ''launch'' [source, ?args] st1)" by (rule state)
  qed
qed

theorem run_passes_argv_tail_witness:
  "forwarded (new_calls demo_machine (snd (run demo_env demo_machine)))
     = [[Obj 7, StrList [''read'', ''--config'', ''secrets/config.json'']]]
   \<and> heap (interp (snd (run demo_env demo_machine)))
     = [[Obj 7, StrList [''read'', ''--config'', ''secrets/config.json'']]]
   \<and> forwarded (new_calls bare_machine (snd (run demo_env bare_machine))) = [[Obj 7, StrList []]]"
proof -
  let ?tail = "[''read'', ''--config'', ''secrets/config.json'']"
  have c: "demo_env ''SourceToggl'' [] (interp demo_machine) = (Inr (Obj 7), interp demo_machine)"
    by (simp add: demo_env_def)
  have a: "sys_argv (interp demo_machine) = ''main.py'' # ?tail"
    by (simp add: demo_machine_def)
  note demo = run_passes_argv_tail [of demo_env demo_machine "Obj 7" "interp demo_machine", OF c]
  from demo have "\<forall>a rest. sys_argv (interp demo_machine) = a # rest \<longrightarrow>
      forwarded (new_calls demo_machine (snd (run demo_env demo_machine))) = [[Obj 7, StrList rest]]"
    by blast
  with a have full: "forwarded (new_calls demo_machine (snd (run demo_env demo_machine)))
      = [[Obj 7, StrList ?tail]]"
    by blast
  from demo have "interp (snd (run demo_env demo_machine))
      = snd (demo_env ''launch'' [Obj 7, StrList (drop 1 (sys_argv (interp demo_machine)))]
               (interp demo_machine))"
    by blast
  then have received: "heap (interp (snd (run demo_env demo_machine))) = [[Obj 7, StrList ?tail]]"
    by (simp add: demo_env_def demo_machine_def)
  have c': "demo_env ''SourceToggl'' [] (interp bare_machine) = (Inr (Obj 7), interp bare_machine)"
    by (simp add: demo_env_def)
  have short: "length (sys_argv (interp bare_machine)) \<le> 1"
    by (simp add: bare_machine_def)
  have "length (sys_argv (interp bare_machine)) \<le> 1 \<longrightarrow>
      forwarded (new_calls bare_machine (snd (run demo_env bare_machine))) = [[Obj 7, StrList []]]"
    using run_passes_argv_tail [of demo_env bare_machine "Obj 7" "interp bare_machine", OF c']
    by blast
  with short have "forwarded (new_calls bare_machine (snd (run demo_env bare_machine)))
      = [[Obj 7, StrList []]]"
    by blast
  with full received show ?thesis by blast
qed

section \<open>The incremental stream: what is emitted and what is checkpointed\<close>

lemma raise_max_greatest: "raise_max (greatest vs) v = greatest (vs @ [v])"
  by (cases "vs = []") (simp_all add: greatest_def max.commute)

lemma cursor_values_append: "cursor_values f (rs @ ss) = cursor_values f rs @ cursor_values f ss"
  by (simp add: cursor_values_def)

lemma emitted_read_record:
  "emitted (read_record f lower st r) = emitted st @ filter (kept f lower) [r]"
  by (simp add: read_record_def kept_def split: option.splits)

lemma running_max_read_record:
  assumes "running_max st = greatest (cursor_values f (emitted st))"
  shows "running_max (read_record f lower st r) = greatest (cursor_values f (emitted (read_record f lower st r)))"
proof (cases "map_of r f")
  case None
  with assms show ?thesis by (simp add: read_record_def)
next
  case (Some v)
  show ?thesis
  proof (cases "discarded lower v")
    case True
    with Some assms show ?thesis by (simp add: read_record_def)
  next
    case False
    have "cursor_values f [r] = [v]" using Some by (simp add: cursor_values_def)
    with Some False assms show ?thesis
      by (simp add: read_record_def cursor_values_append raise_max_greatest)
  qed
qed

lemma emitted_records:
  "emitted (foldl (read_record f lower) st rs) = emitted st @ filter (kept f lower) rs"
proof (induction rs arbitrary: st)
  case Nil
  show ?case by simp
next
  case (Cons r rs)
  show ?case by (simp add: Cons.IH emitted_read_record)
qed

lemma running_max_records:
  "running_max st = greatest (cursor_values f (emitted st)) \<Longrightarrow>
   running_max (foldl (read_record f lower) st rs)
     = greatest (cursor_values f (emitted (foldl (read_record f lower) st rs)))"
proof (induction rs arbitrary: st)
  case Nil
  then show ?case by simp
next
  case (Cons r rs)
  from Cons.prems have "running_max (read_record f lower st r)
      = greatest (cursor_values f (emitted (read_record f lower st r)))"
    by (rule running_max_read_record)
  from Cons.IH [OF this] show ?case by simp
qed

lemma emitted_read_page:
  "emitted (read_page f lower st page) = emitted st @ filter (kept f lower) page"
  by (simp add: read_page_def Let_def emitted_records)

lemma settled_read_page:
  assumes "settled f st"
  shows "settled f (read_page f lower st page)"
proof -
  from assms have "running_max st = greatest (cursor_values f (emitted st))"
    by (simp add: settled_def)
  then have "running_max (foldl (read_record f lower) st page)
      = greatest (cursor_values f (emitted (foldl (read_record f lower) st page)))"
    by (rule running_max_records)
  then show ?thesis by (simp add: settled_def read_page_def Let_def)
qed

lemma read_pages_from:
  "emitted (foldl (read_page f lower) st pages) = emitted st @ filter (kept f lower) (concat pages)"
  by (induction pages arbitrary: st) (simp_all add: emitted_read_page)

lemma settled_pages:
  "settled f st \<Longrightarrow> settled f (foldl (read_page f lower) st pages)"
  by (induction pages arbitrary: st) (simp_all add: settled_read_page)

lemma settled_start: "settled f start"
  by (simp add: settled_def start_def greatest_def cursor_values_def)

lemma emitted_read_pages:
  "emitted (read_pages f lower pages) = filter (kept f lower) (concat pages)"
  by (simp add: read_pages_def read_pages_from start_def)

lemma max_cursor_read_pages:
  "max_cursor (read_pages f lower pages) = greatest (cursor_values f (emitted (read_pages f lower pages)))"
  using settled_pages [OF settled_start, of f lower pages]
  by (simp add: settled_def read_pages_def)

lemma payloads_records:
  "payloads (map (\<lambda>(i, r). Record n (t + i) r) (enumerate k rs) @ [Checkpoint s]) = rs"
  by (induction rs arbitrary: k) (simp_all add: payloads_def)

lemma checkpoints_records:
  "checkpoints (map (\<lambda>(i, r). Record n (t + i) r) (enumerate k rs) @ [Checkpoint s]) = [s]"
  by (induction rs arbitrary: k) (simp_all add: checkpoints_def)

text \<open>
  C6. For an incremental stream read in the client-side fallback with a provided cursor
  \<open>c\<close>, the Record messages of the engine's output are, in order, the upstream records
  whose cursor-field value is strictly greater than \<open>c\<close>: every record with a value less
  than or equal to \<open>c\<close> is discarded, every record with a greater value is emitted. One
  Checkpoint follows them as the last message, and when a record was emitted it carries for
  the stream the maximum cursor value among the emitted records (the provided cursor when
  none was emitted).
\<close>

theorem client_side_filtering:
  assumes "mode d = Incremental f" and "sync_state eng (name d) = Some c"
  shows "payloads (fst (sync_stream d ClientSide upstream eng))
           = filter (\<lambda>r. case map_of r f of None \<Rightarrow> False | Some v \<Rightarrow> c < v) (concat (upstream None))
       \<and> (\<exists>ck. checkpoints (fst (sync_stream d ClientSide upstream eng)) = [ck]
             \<and> last (fst (sync_stream d ClientSide upstream eng)) = Checkpoint ck
             \<and> ck (name d) =
                 (if payloads (fst (sync_stream d ClientSide upstream eng)) = [] then Some c
                  else Some (Max (set (cursor_values f
                         (payloads (fst (sync_stream d ClientSide upstream eng))))))))"
proof -
  let ?rd = "read_pages f (Some c) (upstream None)"
  let ?st = "case max_cursor ?rd of None \<Rightarrow> sync_state eng | Some m \<Rightarrow> (sync_state eng)(name d \<mapsto> m)"
  let ?out = "fst (sync_stream d ClientSide upstream eng)"
  have rd: "read d ClientSide upstream (Some c) = ?rd"
    using assms(1) by (simp add: read_def)
  have out: "?out = map (\<lambda>(i, r). Record (name d) (clock eng + i) r) (enumerate 0 (emitted ?rd))
                     @ [Checkpoint ?st]"
    by (simp add: sync_stream_def Let_def assms(2) rd)
  have pay: "payloads ?out = emitted ?rd"
    unfolding out by (rule payloads_records)
  have kept: "kept f (Some c) = (\<lambda>r. case map_of r f of None \<Rightarrow> False | Some v \<Rightarrow> c < v)"
    by (rule ext) (simp add: kept_def not_le split: option.splits)
  have first: "payloads ?out = filter (\<lambda>r. case map_of r f of None \<Rightarrow> False | Some v \<Rightarrow> c < v) (concat (upstream None))"
    by (simp add: pay emitted_read_pages kept)
  have cks: "checkpoints ?out = [?st]"
    unfolding out by (rule checkpoints_records)
  have lst: "last ?out = Checkpoint ?st"
    unfolding out by simp
  have mx: "max_cursor ?rd = greatest (cursor_values f (emitted ?rd))"
    by (rule max_cursor_read_pages)
  have cur: "?st (name d) = (if payloads ?out = [] then Some c
                  else Some (Max (set (cursor_values f (payloads ?out)))))"
  proof (cases "emitted ?rd = []")
    case True
    then have "max_cursor ?rd = None" using mx by (simp add: greatest_def cursor_values_def)
    with True show ?thesis by (simp add: pay assms(2))
  next
    case False
    have "\<forall>r \<in> set (emitted ?rd). kept f (Some c) r"
      by (simp add: emitted_read_pages)
    then have "cursor_values f (emitted ?rd) \<noteq> []"
      using False
      by (cases "emitted ?rd") (auto simp: cursor_values_def kept_def split: option.splits)
    then have "max_cursor ?rd = Some (Max (set (cursor_values f (emitted ?rd))))"
      using mx by (simp add: greatest_def)
    with False show ?thesis by (simp add: pay)
  qed
  from first cks lst cur show ?thesis by blast
qed

theorem client_side_filtering_witness:
  "payloads (fst (sync_stream projects ClientSide projects_upstream prior))
     = [[(''id'', ''1''), (''updated_at'', ''2024-01-02'')]]
   \<and> (\<exists>ck. checkpoints (fst (sync_stream projects ClientSide projects_upstream prior)) = [ck]
         \<and> last (fst (sync_stream projects ClientSide projects_upstream prior)) = Checkpoint ck
         \<and> ck ''projects'' = Some ''2024-01-02'')"
proof -
  have m: "mode projects = Incremental ''updated_at''"
    by (simp add: projects_def)
  have s: "sync_state prior (name projects) = Some ''2024-01-01''"
    by (simp add: projects_def prior_def)
  have f: "filter (\<lambda>r. case map_of r ''updated_at'' of None \<Rightarrow> False
                        | Some v \<Rightarrow> ''2024-01-01'' < v) (concat (projects_upstream None))
      = [[(''id'', ''1''), (''updated_at'', ''2024-01-02'')]]"
    by (simp add: projects_upstream_def)
  have n: "name projects = ''projects''"
    by (simp add: projects_def)
  let ?out = "fst (sync_stream projects ClientSide projects_upstream prior)"
  from client_side_filtering [of projects "''updated_at''" prior "''2024-01-01''" projects_upstream,
      OF m s]
  obtain ck where p: "payloads ?out = [[(''id'', ''1''), (''updated_at'', ''2024-01-02'')]]"
    and c: "checkpoints ?out = [ck]" and l: "last ?out = Checkpoint ck"
    and v: "ck ''projects'' = (if payloads ?out = [] then Some ''2024-01-01''
              else Some (Max (set (cursor_values ''updated_at'' (payloads ?out)))))"
    unfolding f n by blast
  from v have "ck ''projects'' = Some ''2024-01-02''"
    unfolding p by (simp add: cursor_values_def)
  with p c l show ?thesis by blast
qed

end
